theory Spec2Isabelle
  imports Complex_Main "HOL-Library.Word" "HOL-Library.Monad_Syntax"
begin

section \<open>C strings, buffers and loops\<close>

text \<open>
  A C string is modelled by the list of its characters before the terminating NUL; the
  memory it occupies is that list followed by one NUL byte. A heap buffer is a list of
  bytes; a write outside the buffer is an error of the model (\<open>None\<close>), never a silent
  no-op.
\<close>

definition NUL :: char where
  "NUL = CHR 0x00"

definition TAB :: char where
  "TAB = CHR 0x09"

definition NL :: char where
  "NL = CHR 0x0A"

datatype c_error = DivisionByZero | AssertionFailed | IntegerOverflow | OutOfBounds | NullDereference

definition INT_MAX :: int where
  "INT_MAX = 2147483647"

definition strlen :: "string \<Rightarrow> nat" where
  \<comment> \<open>the argument is the memory from the pointer on\<close>
  "strlen mem = length (takeWhile (\<lambda>c. c \<noteq> NUL) mem)"

definition c_str :: "char list \<Rightarrow> string" where
  \<comment> \<open>the C string a buffer holds: its bytes up to the first NUL\<close>
  "c_str mem = takeWhile (\<lambda>c. c \<noteq> NUL) mem"

definition poke :: "char list \<Rightarrow> nat \<Rightarrow> char \<Rightarrow> char list option" where
  \<comment> \<open>\<open>b[i] = v\<close>\<close>
  "poke b i v = (if i < length b then Some (b[i := v]) else None)"

definition for_range :: "nat \<Rightarrow> (nat \<Rightarrow> 's \<Rightarrow> 's option) \<Rightarrow> 's \<Rightarrow> 's option" where
  \<comment> \<open>\<open>for (i = 0; i < n; i++) body\<close>, stopping at the first failure\<close>
  "for_range n body s = fold (\<lambda>i r. Option.bind r (body i)) [0..<n] (Some s)"

definition memcpy :: "char list \<Rightarrow> nat \<Rightarrow> char list \<Rightarrow> nat \<Rightarrow> nat \<Rightarrow> char list option" where
  \<comment> \<open>\<open>memcpy(dst + doff, src + soff, n)\<close>\<close>
  "memcpy dst doff src soff n =
     for_range n (\<lambda>k b. if soff + k < length src then poke b (doff + k) (src ! (soff + k)) else None) dst"

section \<open>The formatter\<close>

definition format_line :: "string \<Rightarrow> nat \<Rightarrow> nat \<Rightarrow> nat \<Rightarrow> nat \<Rightarrow> nat \<Rightarrow> char list \<Rightarrow> char list option" where
  \<comment> \<open>the body of the loop over \<open>i\<close> in \<open>format_string\<close>\<close>
  "format_line buf cols depth colw len i new_buf =
     do {
       b1 \<leftarrow> poke new_buf (i * colw) NL;
       b2 \<leftarrow> for_range depth (\<lambda>j b. poke b (i * colw + 1 + j) TAB) b1;
       memcpy b2 (i * colw + 1 + depth) (buf @ [NUL]) (i * cols)
         (if (i + 1) * cols \<le> len then cols else len - i * cols)
     }"

text \<open>
  \<open>format_string\<close>: \<open>buf\<close> holds the characters of the argument before its NUL. The
  division \<open>len / cols\<close> comes before the assertions, so a zero \<open>cols\<close> never reaches
  them; a negative \<open>cols\<close> or \<open>depth\<close> ends at the assertions. Every \<open>int\<close> computed
  is at most the size of the buffer, so the arithmetic stays in range exactly when that
  size does.
\<close>

definition format_string :: "string \<Rightarrow> int \<Rightarrow> int \<Rightarrow> c_error + string" where
  "format_string buf cols depth =
     (if cols = 0 then Inl DivisionByZero
      else if cols < 0 \<or> depth < 0 then Inl AssertionFailed
      else
        let c = nat cols; d = nat depth;
            colw = d + c + 1;
            len = strlen (buf @ [NUL]);
            nlines = len div c + 1;
            sz = nlines * colw + d + 1
        in if INT_MAX < int sz then Inl IntegerOverflow
           else
             case do {
                    b1 \<leftarrow> for_range nlines (format_line buf c d colw len) (replicate sz NUL);
                    b2 \<leftarrow> poke b1 (len + (1 + d) * nlines) NL;
                    b3 \<leftarrow> for_range d (\<lambda>j b. poke b (len + (1 + d) * nlines + 1 + j) TAB) b2;
                    poke b3 (len + (1 + d) * nlines + d + 1) NUL
                  }
             of None \<Rightarrow> Inl OutOfBounds
              | Some new_buf \<Rightarrow> Inr (c_str new_buf))"


section \<open>The value tree\<close>

text \<open>
  \<open>plist.h\<close> is not among the sources. The enumerators below are the ones that
  \<open>xplist.c\<close> names; \<open>PLIST_NONE\<close> stands for every other enumerator, which the
  encoder's switch sends to \<open>default\<close>. The payload fields are the members of
  \<open>struct plist_data_s\<close> that \<open>xplist.c\<close> reads or writes, kept apart from each other;
  a \<open>double\<close> is taken as the real number it denotes.
\<close>

datatype plist_type =
    PLIST_BOOLEAN | PLIST_UINT | PLIST_REAL | PLIST_STRING | PLIST_KEY
  | PLIST_DATA | PLIST_ARRAY | PLIST_DICT | PLIST_DATE | PLIST_NONE

record GTimeVal =
  tv_sec :: int
  tv_usec :: int

record plist_data =
  type :: plist_type
  boolval :: bool
  intval :: "64 word"
  realval :: real
  strval :: "string option"
  buff :: "8 word list"
  timeval :: GTimeVal
  length' :: nat

text \<open>A \<open>GNode\<close>: the payload and the children, in order.\<close>

datatype plist = Node plist_data "plist list"

fun plist_get_data :: "plist \<Rightarrow> plist_data" where
  "plist_get_data (Node d cs) = d"

fun g_node_children :: "plist \<Rightarrow> plist list" where
  "g_node_children (Node d cs) = cs"

fun g_node_append :: "plist \<Rightarrow> plist \<Rightarrow> plist" where
  "g_node_append (Node d cs) sub = Node d (cs @ [sub])"

section \<open>The XML document model\<close>

text \<open>
  The document tree of libxml2, as far as \<open>xplist.c\<close> looks at it: the kind of a node, its
  name (\<open>text\<close> for a text node), its own content and its children.
\<close>

datatype xmlElementType =
  XML_ELEMENT_NODE | XML_TEXT_NODE | XML_COMMENT_NODE | XML_ENTITY_REF_NODE

datatype xmlNode =
  XmlNode (xml_type: xmlElementType) (xml_name: string) (xml_content: string)
    (xml_children: "xmlNode list")

definition xmlNewText :: "string \<Rightarrow> xmlNode" where
  "xmlNewText s = XmlNode XML_TEXT_NODE ''text'' s []"

definition xmlNewNode :: "string \<Rightarrow> xmlNode list \<Rightarrow> xmlNode" where
  "xmlNewNode tag cs = XmlNode XML_ELEMENT_NODE tag [] cs"

datatype xmlCharEncoding =
    XML_CHAR_ENCODING_ERROR | XML_CHAR_ENCODING_NONE | XML_CHAR_ENCODING_UTF8
  | XML_CHAR_ENCODING_UTF16LE | XML_CHAR_ENCODING_UTF16BE | XML_CHAR_ENCODING_UCS4LE
  | XML_CHAR_ENCODING_UCS4BE | XML_CHAR_ENCODING_EBCDIC | XML_CHAR_ENCODING_UCS4_2143
  | XML_CHAR_ENCODING_UCS4_3412 | XML_CHAR_ENCODING_ASCII

text \<open>
  \<open>xmlNodeGetContent\<close>: the text of a text or comment node; for an element, the text of
  its text descendants in document order.
\<close>

fun xmlNodeBufGetContent :: "xmlNode \<Rightarrow> string"
  and xmlNodeListGetContent :: "xmlNode list \<Rightarrow> string" where
  "xmlNodeBufGetContent (XmlNode t n c cs) =
     (if t = XML_TEXT_NODE then c
      else if t = XML_ELEMENT_NODE then xmlNodeListGetContent cs
      else [])"
| "xmlNodeListGetContent [] = []"
| "xmlNodeListGetContent (k # ks) = xmlNodeBufGetContent k @ xmlNodeListGetContent ks"

definition xmlNodeGetContent :: "xmlNode \<Rightarrow> string" where
  "xmlNodeGetContent node =
     (if xml_type node = XML_COMMENT_NODE then xml_content node
      else xmlNodeBufGetContent node)"

text \<open>
  \<open>xmlNodeAddContent\<close> appends text to an element: it extends a trailing text child, or
  adds a new one.
\<close>

fun xmlNodeAddContent :: "xmlNode \<Rightarrow> string \<Rightarrow> xmlNode" where
  "xmlNodeAddContent (XmlNode t n c cs) s =
     (if cs \<noteq> [] \<and> xml_type (last cs) = XML_TEXT_NODE
      then XmlNode t n c (butlast cs @ [xmlNewText (xml_content (last cs) @ s)])
      else XmlNode t n c (cs @ [xmlNewText s]))"

fun xmlAddChild :: "xmlNode \<Rightarrow> xmlNode \<Rightarrow> xmlNode" where
  "xmlAddChild (XmlNode t n c cs) child = XmlNode t n c (cs @ [child])"


section \<open>Library primitives with a documented behaviour\<close>

text \<open>
  GLib and libxml2 are not part of the repository. The primitives below follow the
  documentation of the libraries; the ones whose results are floating-point numbers,
  timestamps or serialised documents are left open in the record \<open>ext\<close> further down.
\<close>

subsection \<open>\<open>g_strdup\<close>, \<open>strdup\<close>\<close>

definition strdup :: "string \<Rightarrow> string" where
  "strdup s = c_str (s @ [NUL])"

definition g_strdup :: "string option \<Rightarrow> string option" where
  \<comment> \<open>\<open>g_strdup (NULL)\<close> is \<open>NULL\<close>\<close>
  "g_strdup s = map_option strdup s"

subsection \<open>\<open>g_strdup_printf ("%llu", n)\<close>\<close>

definition digit_char :: "nat \<Rightarrow> char" where
  "digit_char n = char_of (48 + n)"

fun decimal :: "nat \<Rightarrow> string" where
  "decimal n = (if n < 10 then [digit_char n] else decimal (n div 10) @ [digit_char (n mod 10)])"

declare decimal.simps [simp del]

definition printf_llu :: "64 word \<Rightarrow> string" where
  "printf_llu n = decimal (unat n)"

subsection \<open>\<open>g_ascii_strtoull\<close>\<close>

text \<open>
  GLib documents \<open>g_ascii_strtoull\<close> as the \<open>strtoull\<close> of the C locale: leading white
  space is skipped, a sign is accepted, base 0 means hexadecimal after \<open>0x\<close>, octal after
  \<open>0\<close> and decimal otherwise, the longest run of digits of the base is converted and
  what follows it is ignored (the caller passes no end pointer), a value that does not
  fit yields \<open>G_MAXUINT64\<close>, and no digits at all yield 0.
\<close>

definition G_MAXUINT64 :: nat where
  "G_MAXUINT64 = 18446744073709551615"

definition ISSPACE :: "char \<Rightarrow> bool" where
  "ISSPACE c = (c = CHR '' '' \<or> c = CHR 0x0C \<or> c = NL \<or> c = CHR 0x0D \<or> c = TAB \<or> c = CHR 0x0B)"

definition digit_value :: "char \<Rightarrow> nat option" where
  "digit_value c =
     (let n = (of_char c :: nat) in
      if 48 \<le> n \<and> n \<le> 57 then Some (n - 48)
      else if 65 \<le> n \<and> n \<le> 90 then Some (n - 65 + 10)
      else if 97 \<le> n \<and> n \<le> 122 then Some (n - 97 + 10)
      else None)"

fun parse_digits :: "nat \<Rightarrow> string \<Rightarrow> nat \<times> bool \<times> bool \<Rightarrow> nat \<times> bool \<times> bool" where
  \<comment> \<open>the state is the value so far, the overflow flag, and whether a digit was consumed\<close>
  "parse_digits base [] st = st"
| "parse_digits base (c # s) (ui64, overflow, any) =
     (case digit_value c of
        None \<Rightarrow> (ui64, overflow, any)
      | Some v \<Rightarrow>
          if base \<le> v then (ui64, overflow, any)
          else if G_MAXUINT64 div base < ui64 \<or> (ui64 = G_MAXUINT64 div base \<and> G_MAXUINT64 mod base < v)
          then parse_digits base s (ui64, True, True)
          else parse_digits base s (ui64 * base + v, overflow, True))"

definition g_parse_long_long :: "string \<Rightarrow> nat \<Rightarrow> nat \<times> bool" where
  \<comment> \<open>the magnitude and whether a minus sign was read\<close>
  "g_parse_long_long nptr base =
     (if base = 1 \<or> 36 < base then (0, False)
      else
        case dropWhile ISSPACE nptr of
          [] \<Rightarrow> (0, False)
        | c0 # s0 \<Rightarrow>
            let negative = (c0 = CHR ''-'');
                s1 = (if c0 = CHR ''-'' \<or> c0 = CHR ''+'' then s0 else c0 # s0);
                (s2, base') =
                  (case s1 of
                     z # x # s' \<Rightarrow>
                       if z = CHR ''0'' \<and> (base = 0 \<or> base = 16) \<and> (x = CHR ''x'' \<or> x = CHR ''X'')
                       then (s', 16)
                       else if z = CHR ''0'' \<and> base = 0 then (s1, 8)
                       else if base = 0 then (s1, 10) else (s1, base)
                   | [z] \<Rightarrow>
                       if z = CHR ''0'' \<and> base = 0 then (s1, 8)
                       else if base = 0 then (s1, 10) else (s1, base)
                   | [] \<Rightarrow> if base = 0 then (s1, 10) else (s1, base))
            in case parse_digits base' s2 (0, False, False) of
                 (ui64, overflow, any) \<Rightarrow>
                   if \<not> any then (0, negative)
                   else if overflow then (G_MAXUINT64, negative)
                   else (ui64, negative))"

definition g_ascii_strtoull :: "string \<Rightarrow> nat \<Rightarrow> 64 word" where
  "g_ascii_strtoull nptr base =
     (case g_parse_long_long nptr base of
        (result, negative) \<Rightarrow> if negative then - word_of_nat result else word_of_nat result)"

text \<open>
  For stating what \<open>g_ascii_strtoull\<close> accepts: a digit of a base, the value of a run
  of digits, and the text left after white space and a sign.
\<close>

definition digit_or_zero :: "char \<Rightarrow> nat" where
  "digit_or_zero c = (case digit_value c of Some v \<Rightarrow> v | None \<Rightarrow> 0)"

definition digits_value :: "nat \<Rightarrow> string \<Rightarrow> nat" where
  "digits_value base ds = foldl (\<lambda>a c. a * base + digit_or_zero c) 0 ds"

definition is_digit_of :: "nat \<Rightarrow> char \<Rightarrow> bool" where
  "is_digit_of base c = (case digit_value c of Some v \<Rightarrow> v < base | None \<Rightarrow> False)"

definition number_start :: "string \<Rightarrow> string" where
  "number_start s =
     (case dropWhile ISSPACE s of
        [] \<Rightarrow> []
      | c0 # s0 \<Rightarrow> if c0 = CHR ''-'' \<or> c0 = CHR ''+'' then s0 else c0 # s0)"

subsection \<open>\<open>g_base64_encode\<close>\<close>

definition base64_alphabet :: string where
  "base64_alphabet = ''ABCDEFGHIJKLMNOPQRSTUVWXYZabcdefghijklmnopqrstuvwxyz0123456789+/''"

definition base64_char :: "nat \<Rightarrow> char" where
  "base64_char n = base64_alphabet ! n"

fun base64_groups :: "8 word list \<Rightarrow> string" where
  "base64_groups [] = []"
| "base64_groups [a] =
     [base64_char (unat a div 4), base64_char (unat a mod 4 * 16), CHR ''='', CHR ''='']"
| "base64_groups [a, b] =
     [base64_char (unat a div 4), base64_char (unat a mod 4 * 16 + unat b div 16),
      base64_char (unat b mod 16 * 4), CHR ''='']"
| "base64_groups (a # b # c # rest) =
     [base64_char (unat a div 4), base64_char (unat a mod 4 * 16 + unat b div 16),
      base64_char (unat b mod 16 * 4 + unat c div 64), base64_char (unat c mod 64)]
     @ base64_groups rest"

definition g_base64_encode :: "8 word list \<Rightarrow> nat \<Rightarrow> string" where
  \<comment> \<open>the text of the first \<open>len\<close> bytes, on one line\<close>
  "g_base64_encode data len = base64_groups (take len data)"

subsection \<open>\<open>xmlDetectCharEncoding\<close>\<close>

text \<open>
  libxml2 guesses the encoding from the first bytes: a byte-order mark or the encoded
  start of an XML declaration; anything else is \<open>XML_CHAR_ENCODING_NONE\<close>.
\<close>

definition xmlDetectCharEncoding :: "string \<Rightarrow> nat \<Rightarrow> xmlCharEncoding" where
  "xmlDetectCharEncoding in' len =
     (let b = map of_char (take len in') :: nat list in
      if 4 \<le> len \<and> take 4 b = [0x00, 0x00, 0x00, 0x3C] then XML_CHAR_ENCODING_UCS4BE
      else if 4 \<le> len \<and> take 4 b = [0x3C, 0x00, 0x00, 0x00] then XML_CHAR_ENCODING_UCS4LE
      else if 4 \<le> len \<and> take 4 b = [0x00, 0x00, 0x3C, 0x00] then XML_CHAR_ENCODING_UCS4_2143
      else if 4 \<le> len \<and> take 4 b = [0x00, 0x3C, 0x00, 0x00] then XML_CHAR_ENCODING_UCS4_3412
      else if 4 \<le> len \<and> take 4 b = [0x4C, 0x6F, 0xA7, 0x94] then XML_CHAR_ENCODING_EBCDIC
      else if 4 \<le> len \<and> take 4 b = [0x3C, 0x3F, 0x78, 0x6D] then XML_CHAR_ENCODING_UTF8
      else if 4 \<le> len \<and> take 4 b = [0x3C, 0x00, 0x3F, 0x00] then XML_CHAR_ENCODING_UTF16LE
      else if 4 \<le> len \<and> take 4 b = [0x00, 0x3C, 0x00, 0x3F] then XML_CHAR_ENCODING_UTF16BE
      else if 3 \<le> len \<and> take 3 b = [0xEF, 0xBB, 0xBF] then XML_CHAR_ENCODING_UTF8
      else if 2 \<le> len \<and> take 2 b = [0xFE, 0xFF] then XML_CHAR_ENCODING_UTF16BE
      else if 2 \<le> len \<and> take 2 b = [0xFF, 0xFE] then XML_CHAR_ENCODING_UTF16LE
      else XML_CHAR_ENCODING_NONE)"

subsection \<open>\<open>xmlNewChild\<close> and \<open>xmlNewTextChild\<close>\<close>

text \<open>
  \<open>xmlNewTextChild\<close> takes its content as raw text. \<open>xmlNewChild\<close> takes it as a piece
  of XML character data: an entity reference in it is recognised, a predefined one is
  replaced by its character, any other one (numeric ones are not told apart here)
  becomes a reference node, and an unterminated one ends the content.
\<close>

definition predefined_entity :: "string \<Rightarrow> char option" where
  "predefined_entity n =
     (if n = ''lt'' then Some (CHR ''<'')
      else if n = ''gt'' then Some (CHR ''>'')
      else if n = ''amp'' then Some (CHR ''&'')
      else if n = ''apos'' then Some (CHR 0x27)
      else if n = ''quot'' then Some (CHR 0x22)
      else None)"

definition flush_text :: "string \<Rightarrow> xmlNode list" where
  "flush_text acc = (if acc = [] then [] else [xmlNewText acc])"

fun xmlStringGetNodeList_step ::
    "xmlNode list \<times> string \<times> string option \<Rightarrow> char \<Rightarrow> xmlNode list \<times> string \<times> string option" where
  \<comment> \<open>the nodes made so far, the text being collected, the entity name being read\<close>
  "xmlStringGetNodeList_step (nodes, acc, None) c =
     (if c = CHR ''&'' then (nodes, acc, Some []) else (nodes, acc @ [c], None))"
| "xmlStringGetNodeList_step (nodes, acc, Some n) c =
     (if c = CHR '';'' then
        (if n = [] then (nodes, acc, None)
         else case predefined_entity n of
                Some e \<Rightarrow> (nodes, acc @ [e], None)
              | None \<Rightarrow> (nodes @ flush_text acc @ [XmlNode XML_ENTITY_REF_NODE n [] []], [], None))
      else (nodes, acc, Some (n @ [c])))"

definition xmlStringGetNodeList :: "string \<Rightarrow> xmlNode list" where
  "xmlStringGetNodeList val =
     (case foldl xmlStringGetNodeList_step ([], [], None) val of
        (nodes, acc, None) \<Rightarrow> if acc \<noteq> [] \<or> nodes = [] then nodes @ [xmlNewText acc] else nodes
      | (nodes, acc, Some n) \<Rightarrow> nodes @ flush_text acc)"

definition xmlNewChild :: "string option \<Rightarrow> string option \<Rightarrow> xmlNode option" where
  \<comment> \<open>the new element; no element without a name\<close>
  "xmlNewChild tag val =
     (case tag of
        None \<Rightarrow> None
      | Some t \<Rightarrow> Some (xmlNewNode t (case val of None \<Rightarrow> [] | Some v \<Rightarrow> xmlStringGetNodeList v)))"

definition xmlNewTextChild :: "string option \<Rightarrow> string option \<Rightarrow> xmlNode option" where
  "xmlNewTextChild tag val =
     (case tag of
        None \<Rightarrow> None
      | Some t \<Rightarrow> Some (xmlNewNode t (case val of None \<Rightarrow> [] | Some v \<Rightarrow> [xmlNewText v])))"

subsection \<open>The primitives left open\<close>

text \<open>
  \<open>plist_new_plist_data\<close> belongs to the repository's \<open>plist.c\<close>, which is not among the
  sources: the fresh payload it returns is a parameter. So are the size of a \<open>GTimeVal\<close>,
  the conversions between text and floating-point numbers or timestamps, the base64
  decoder, and the serialiser and parser of libxml2. \<open>g_time_val_from_iso8601\<close> gets
  the old timestamp and returns the new one, which is the old one when parsing fails.
  \<open>xmlDocDumpMemory\<close> returns the buffer and its size; \<open>xmlParseMemory\<close> returns the root
  element of the parsed document, if there is one.
\<close>

record ext =
  plist_new_plist_data :: plist_data
  sizeof_GTimeVal :: nat
  atof :: "string \<Rightarrow> real"
  printf_f :: "real \<Rightarrow> string"
  g_time_val_to_iso8601 :: "GTimeVal \<Rightarrow> string option"
  g_time_val_from_iso8601 :: "string \<Rightarrow> GTimeVal \<Rightarrow> GTimeVal"
  g_base64_decode :: "string \<Rightarrow> 8 word list"
  xmlDocDumpMemory :: "xmlNode \<Rightarrow> string option \<times> int"
  xmlParseMemory :: "string \<Rightarrow> 32 word \<Rightarrow> xmlNode option"


section \<open>The decoder\<close>

text \<open>
  \<open>xml_to_node_loop\<close> is the \<open>for\<close> loop of \<open>xml_to_node\<close> over the children of an
  element; the out-parameter \<open>*plist_node\<close> is passed in and returned. The source links
  the fresh \<open>subnode\<close> into the tree first and fills it afterwards; the node is fresh
  and stays the last child while it is filled, so the model fills it first and links it
  then. The recursive call \<open>xml_to_node(node, &subnode)\<close> is the loop over the children
  of \<open>node\<close>, started with \<open>subnode\<close> in the out-parameter.
\<close>

fun xml_to_node_loop :: "ext \<Rightarrow> xmlNode list \<Rightarrow> plist option \<Rightarrow> plist option" where
  "xml_to_node_loop E [] plist_node = plist_node"
| "xml_to_node_loop E (XmlNode t name c cs # rest) plist_node =
     (if name = ''text'' then xml_to_node_loop E rest plist_node
      else
        let node = XmlNode t name c cs;
            data = plist_new_plist_data E;
            subnode =
              (if name = ''true'' then
                 Node (data\<lparr>boolval := True, type := PLIST_BOOLEAN, length' := 1\<rparr>) []
               else if name = ''false'' then
                 Node (data\<lparr>boolval := False, type := PLIST_BOOLEAN, length' := 1\<rparr>) []
               else if name = ''integer'' then
                 Node (data\<lparr>intval := g_ascii_strtoull (xmlNodeGetContent node) 0,
                             type := PLIST_UINT, length' := 8\<rparr>) []
               else if name = ''real'' then
                 Node (data\<lparr>realval := atof E (xmlNodeGetContent node),
                             type := PLIST_REAL, length' := 8\<rparr>) []
               else if name = ''date'' then
                 Node (data\<lparr>timeval := g_time_val_from_iso8601 E (xmlNodeGetContent node) (timeval data),
                             type := PLIST_DATE, length' := sizeof_GTimeVal E\<rparr>) []
               else if name = ''string'' then
                 (let strval' = xmlNodeGetContent node;
                      len = strlen (strval' @ [NUL]);
                      type' = xmlDetectCharEncoding strval' len
                  in if type' = XML_CHAR_ENCODING_UTF8 \<or> type' = XML_CHAR_ENCODING_ASCII
                        \<or> type' = XML_CHAR_ENCODING_NONE
                     then Node (data\<lparr>strval := Some (strdup strval'), type := PLIST_STRING,
                                      length' := strlen (strdup strval' @ [NUL])\<rparr>) []
                     else Node data [])
               else if name = ''key'' then
                 (let strval' = xmlNodeGetContent node
                  in Node (data\<lparr>strval := Some (strdup strval'), type := PLIST_KEY,
                                   length' := strlen (strdup strval' @ [NUL])\<rparr>) [])
               else if name = ''data'' then
                 (let dec = g_base64_decode E (xmlNodeGetContent node)
                  in Node (data\<lparr>buff := dec, length' := length dec, type := PLIST_DATA\<rparr>) [])
               else if name = ''array'' then
                 (case xml_to_node_loop E cs (Some (Node (data\<lparr>type := PLIST_ARRAY\<rparr>) [])) of
                    Some filled \<Rightarrow> filled
                  | None \<Rightarrow> Node (data\<lparr>type := PLIST_ARRAY\<rparr>) [])
               else if name = ''dict'' then
                 (case xml_to_node_loop E cs (Some (Node (data\<lparr>type := PLIST_DICT\<rparr>) [])) of
                    Some filled \<Rightarrow> filled
                  | None \<Rightarrow> Node (data\<lparr>type := PLIST_DICT\<rparr>) [])
               else Node data [])
        in xml_to_node_loop E rest
             (Some (case plist_node of
                      Some parent \<Rightarrow> g_node_append parent subnode
                    | None \<Rightarrow> subnode)))"

definition xml_to_node :: "ext \<Rightarrow> xmlNode option \<Rightarrow> plist option \<Rightarrow> plist option" where
  "xml_to_node E xml_node plist_node =
     (case xml_node of
        None \<Rightarrow> plist_node
      | Some n \<Rightarrow> xml_to_node_loop E (xml_children n) plist_node)"

definition plist_from_xml :: "ext \<Rightarrow> string \<Rightarrow> 32 word \<Rightarrow> plist option \<Rightarrow> plist option" where
  \<comment> \<open>\<open>xmlParseMemory\<close> followed by \<open>xmlDocGetRootElement\<close> gives the root element, if any\<close>
  "plist_from_xml E plist_xml len plist = xml_to_node E (xmlParseMemory E plist_xml len) plist"

text \<open>
  The node that the loop builds for one child that is not a text node: the result of the
  loop on that child alone, started with a null out-parameter.
\<close>

definition subnode_of :: "ext \<Rightarrow> xmlNode \<Rightarrow> plist" where
  "subnode_of E node =
     (case xml_to_node_loop E [node] None of
        Some subnode \<Rightarrow> subnode
      | None \<Rightarrow> Node (plist_new_plist_data E) [])"


section \<open>The encoder\<close>

record xml_node =
  xml :: xmlNode
  depth :: "32 word"

text \<open>
  The \<open>switch\<close> of \<open>node_to_xml\<close>. \<open>g_base64_encode\<close> reads \<open>length\<close> bytes from
  \<open>buff\<close>; a buffer shorter than that is read outside its bounds. The depth, a
  \<open>uint32_t\<close>, is passed to \<open>format_string\<close> as an \<open>int\<close>.
\<close>

definition node_to_xml_val ::
    "ext \<Rightarrow> plist_data \<Rightarrow> 32 word \<Rightarrow> c_error + (string option \<times> string option \<times> bool)" where
  \<comment> \<open>the \<open>switch\<close>: the tag, the text \<open>val\<close> and \<open>isStruct\<close>\<close>
  "node_to_xml_val E node_data dep =
     (case type node_data of
        PLIST_BOOLEAN \<Rightarrow>
          Inr (Some (if boolval node_data then ''true'' else ''false''), None, False)
      | PLIST_UINT \<Rightarrow> Inr (Some ''integer'', Some (printf_llu (intval node_data)), False)
      | PLIST_REAL \<Rightarrow> Inr (Some ''real'', Some (printf_f E (realval node_data)), False)
      | PLIST_STRING \<Rightarrow> Inr (Some ''string'', g_strdup (strval node_data), False)
      | PLIST_KEY \<Rightarrow> Inr (Some ''key'', g_strdup (strval node_data), False)
      | PLIST_DATA \<Rightarrow>
          if length' node_data \<noteq> 0 then
            if length (buff node_data) < length' node_data then Inl OutOfBounds
            else
              let valtmp = g_base64_encode (buff node_data) (length' node_data) in
              case format_string valtmp 60 (sint dep) of
                Inl e \<Rightarrow> Inl e
              | Inr val \<Rightarrow> Inr (Some ''data'', Some val, False)
          else Inr (Some ''data'', None, False)
      | PLIST_ARRAY \<Rightarrow> Inr (Some ''array'', None, True)
      | PLIST_DICT \<Rightarrow> Inr (Some ''dict'', None, True)
      | PLIST_DATE \<Rightarrow> Inr (Some ''date'', g_time_val_to_iso8601 E (timeval node_data), False)
      | PLIST_NONE \<Rightarrow> Inr (None, None, False))"

definition add_tabs :: "32 word \<Rightarrow> xmlNode \<Rightarrow> xmlNode" where
  \<comment> \<open>\<open>for (i = 0; i < depth; i++) xmlNodeAddContent(x, "\t")\<close>\<close>
  "add_tabs dep x = ((\<lambda>y. xmlNodeAddContent y [TAB]) ^^ unat dep) x"

text \<open>
  \<open>node_to_xml\<close> updates the element \<open>xstruct->xml\<close>; the model returns the updated
  structure. The source appends the new child element to its parent first and completes
  it afterwards through \<open>child_node\<close>; the model completes the child and appends it then,
  which gives the same tree. \<open>node_to_xml_children\<close> is \<open>g_node_children_foreach\<close>
  with \<open>node_to_xml\<close> as the callback. The test \<open>if (!node) return\<close> is the case of
  no node at all, which neither caller produces.
\<close>

fun node_to_xml :: "ext \<Rightarrow> plist \<Rightarrow> xml_node \<Rightarrow> c_error + xml_node"
  and node_to_xml_children :: "ext \<Rightarrow> plist list \<Rightarrow> xml_node \<Rightarrow> c_error + xml_node" where
  "node_to_xml E (Node node_data kids) xstruct =
     (case node_to_xml_val E node_data (depth xstruct) of
        Inl e \<Rightarrow> Inl e
      | Inr (tag, val, isStruct) \<Rightarrow>
          let indented = add_tabs (depth xstruct) (xml xstruct);
              child_node =
                (if type node_data = PLIST_STRING then xmlNewTextChild tag val
                 else xmlNewChild tag val)
          in case child_node of
               None \<Rightarrow> Inr (xstruct\<lparr>xml := xmlNodeAddContent indented [NL]\<rparr>)
             | Some child0 \<Rightarrow>
                 let child1 =
                       (if type node_data = PLIST_ARRAY \<or> type node_data = PLIST_DICT
                        then xmlNodeAddContent child0 [NL] else child0)
                 in case (if isStruct
                          then node_to_xml_children E kids \<lparr>xml = child1, depth = depth xstruct + 1\<rparr>
                          else Inr \<lparr>xml = child1, depth = depth xstruct + 1\<rparr>) of
                      Inl e \<Rightarrow> Inl e
                    | Inr child \<Rightarrow>
                        let child2 =
                              (if type node_data = PLIST_ARRAY \<or> type node_data = PLIST_DICT
                               then add_tabs (depth xstruct) (xml child) else xml child)
                        in Inr (xstruct\<lparr>xml := xmlNodeAddContent (xmlAddChild indented child2) [NL]\<rparr>))"
| "node_to_xml_children E [] child = Inr child"
| "node_to_xml_children E (k # ks) child =
     (case node_to_xml E k child of
        Inl e \<Rightarrow> Inl e
      | Inr child' \<Rightarrow> node_to_xml_children E ks child')"

definition new_xml_plist :: xmlNode where
  \<comment> \<open>the root element of the parsed template \<open>plist_base\<close>\<close>
  "new_xml_plist = xmlNewNode ''plist'' [xmlNewText [NL]]"

text \<open>
  \<open>plist_to_xml\<close>: \<open>plist_xml\<close> is \<open>None\<close> for a null \<open>char **\<close> and \<open>Some v\<close> when it
  points to \<open>v\<close>; \<open>len\<close> likewise for \<open>uint32_t *\<close>. The result is the new contents of
  the two out-parameters.
\<close>

definition plist_to_xml ::
    "ext \<Rightarrow> plist option \<Rightarrow> string option option \<Rightarrow> 32 word option
       \<Rightarrow> c_error + (string option option \<times> 32 word option)" where
  "plist_to_xml E plist plist_xml len =
     (case plist of
        None \<Rightarrow> Inr (plist_xml, len)
      | Some node \<Rightarrow>
          (case plist_xml of
             None \<Rightarrow> Inr (plist_xml, len)
           | Some (Some buf) \<Rightarrow> Inr (plist_xml, len)
           | Some None \<Rightarrow>
               (case node_to_xml E node \<lparr>xml = new_xml_plist, depth = 0\<rparr> of
                  Inl e \<Rightarrow> Inl e
                | Inr root_struct \<Rightarrow>
                    (case xmlDocDumpMemory E (xml root_struct) of
                       (mem, sz) \<Rightarrow>
                         if 0 \<le> sz then
                           (case len of
                              None \<Rightarrow> Inl NullDereference
                            | Some l \<Rightarrow> Inr (Some mem, Some (word_of_int sz)))
                         else Inr (Some mem, len)))))"


section \<open>An environment for evaluation\<close>

text \<open>
  Concrete inputs are evaluated in \<open>ext0\<close>. A fresh payload is zero-filled, as \<open>calloc\<close>
  leaves it. The floating-point, timestamp, base64-decoding and serialising primitives
  are not modelled: \<open>ext0\<close> gives them fixed results, and no input evaluated below
  reaches them. The general theorems about the decoder and the encoder are stated for an
  arbitrary environment.
\<close>

definition calloc_data :: plist_data where
  "calloc_data =
     \<lparr>type = PLIST_BOOLEAN, boolval = False, intval = 0, realval = 0, strval = None,
      buff = [], timeval = \<lparr>tv_sec = 0, tv_usec = 0\<rparr>, length' = 0\<rparr>"

definition ext0 :: ext where
  "ext0 =
     \<lparr>plist_new_plist_data = calloc_data,
      sizeof_GTimeVal = 16,
      atof = (\<lambda>s. 0),
      printf_f = (\<lambda>x. []),
      g_time_val_to_iso8601 = (\<lambda>tv. None),
      g_time_val_from_iso8601 = (\<lambda>s tv. tv),
      g_base64_decode = (\<lambda>s. []),
      xmlDocDumpMemory = (\<lambda>doc. (None, - 1)),
      xmlParseMemory = (\<lambda>s n. None)\<rparr>"


section \<open>The formatter writes the specified lines\<close>




















lemma takeWhile_until:
  "z \<notin> set Q \<Longrightarrow> takeWhile (\<lambda>c. c \<noteq> z) (Q @ z # rest) = Q"
  by (induction Q) auto



lemma strlen_mem:
  "NUL \<notin> set buf \<Longrightarrow> strlen (buf @ [NUL]) = length buf"
  by (simp add: strlen_def takeWhile_until)




lemma strlen_replicate:
  "c \<noteq> NUL \<Longrightarrow> strlen (replicate n c @ [NUL]) = n"
  by (rule trans [OF strlen_mem]) simp_all





text \<open>
  The encoder reaches the first of these inputs: for a Data node of 9605025 zero bytes
  at depth 10000 the text handed to the formatter is the one above, and the encoder
  stops with the overflow.
\<close>

lemma base64_groups_zeros:
  "base64_groups (replicate (3 * k) 0) = replicate (4 * k) (CHR ''A'')"
proof (induction k)
  case 0
  show ?case by simp
next
  case (Suc k)
  have "replicate (3 * Suc k) (0 :: 8 word) = 0 # 0 # 0 # replicate (3 * k) 0"
    by (simp add: numeral_3_eq_3)
  moreover have "replicate (4 * Suc k) (CHR ''A'')
      = CHR ''A'' # CHR ''A'' # CHR ''A'' # CHR ''A'' # replicate (4 * k) (CHR ''A'')"
    by (simp add: eval_nat_numeral)
  ultimately show ?case
    using Suc by (simp only: base64_groups.simps) (simp add: base64_char_def base64_alphabet_def)
qed

lemma g_base64_encode_zeros:
  "g_base64_encode (replicate 9605025 0) 9605025 = replicate 12806700 (CHR ''A'')"
  using base64_groups_zeros [of 3201675] by (simp add: g_base64_encode_def)

lemma data_node_overflow:
  "node_to_xml_val E (d\<lparr>type := PLIST_DATA, buff := replicate 9605025 0, length' := 9605025\<rparr>) 10000
     = Inl IntegerOverflow"
proof -
  have "sint (10000 :: 32 word) = 10000"
    by simp
  moreover have "format_string (replicate 12806700 (CHR ''A'')) 60 10000 = Inl IntegerOverflow"
  proof -
    have "CHR ''A'' \<noteq> NUL" by (simp add: NUL_def)
    then have "strlen (replicate 12806700 (CHR ''A'') @ [NUL]) = 12806700"
      by (rule strlen_replicate)
    then show ?thesis
      by (simp add: format_string_def INT_MAX_def Let_def)
  qed
  ultimately show ?thesis
    by (simp add: node_to_xml_val_def g_base64_encode_zeros Let_def)
qed

section \<open>The decoder's loop\<close>

declare xml_to_node_loop.simps(2) [simp del]

lemma loop_text:
  "xml_name node = ''text'' \<Longrightarrow>
   xml_to_node_loop E (node # rest) plist_node = xml_to_node_loop E rest plist_node"
  by (cases node) (auto simp: xml_to_node_loop.simps(2))

lemma loop_elem_XmlNode:
  "name \<noteq> ''text'' \<Longrightarrow>
   xml_to_node_loop E (XmlNode t name c cs # rest) plist_node
     = xml_to_node_loop E rest
         (Some (case plist_node of
                  Some parent \<Rightarrow> g_node_append parent (subnode_of E (XmlNode t name c cs))
                | None \<Rightarrow> subnode_of E (XmlNode t name c cs)))"
  by (cases plist_node)
    (simp_all add: subnode_of_def xml_to_node_loop.simps(2) Let_def split del: if_split)

lemma loop_elem:
  assumes "xml_name node \<noteq> ''text''"
  shows "xml_to_node_loop E (node # rest) plist_node
     = xml_to_node_loop E rest
         (Some (case plist_node of
                  Some parent \<Rightarrow> g_node_append parent (subnode_of E node)
                | None \<Rightarrow> subnode_of E node))"
proof -
  obtain t name c cs where n: "node = XmlNode t name c cs"
    by (cases node) auto
  have "name \<noteq> ''text''"
    using assms n by simp
  then show ?thesis
    unfolding n by (rule loop_elem_XmlNode)
qed


lemma g_node_append_Node: "g_node_append (Node d cs) sub = Node d (cs @ [sub])"
  by simp

lemma loop_Some:
  "xml_to_node_loop E ns (Some (Node d cs))
     = Some (Node d (cs @ map (subnode_of E) (filter (\<lambda>n. xml_name n \<noteq> ''text'') ns)))"
proof (induction ns arbitrary: cs)
  case Nil
  show ?case by simp
next
  case (Cons n ns)
  show ?case
  proof (cases "xml_name n = ''text''")
    case True
    then show ?thesis
      using Cons.IH [of cs] by (simp add: loop_text)
  next
    case False
    have "xml_to_node_loop E (n # ns) (Some (Node d cs))
        = xml_to_node_loop E ns (Some (Node d (cs @ [subnode_of E n])))"
      using loop_elem [OF False, of E ns "Some (Node d cs)"] by simp
    then show ?thesis
      using False Cons.IH [of "cs @ [subnode_of E n]"] by simp
  qed
qed

lemma loop_None:
  "xml_to_node_loop E ns None
     = (case filter (\<lambda>n. xml_name n \<noteq> ''text'') ns of
          [] \<Rightarrow> None
        | e # es \<Rightarrow>
            Some (Node (plist_get_data (subnode_of E e))
                    (g_node_children (subnode_of E e) @ map (subnode_of E) es)))"
proof (induction ns)
  case Nil
  show ?case by simp
next
  case (Cons n ns)
  show ?case
  proof (cases "xml_name n = ''text''")
    case True
    then show ?thesis
      using Cons.IH by (simp add: loop_text)
  next
    case False
    obtain d cs where sub: "subnode_of E n = Node d cs"
      by (cases "subnode_of E n") auto
    have "xml_to_node_loop E (n # ns) None = xml_to_node_loop E ns (Some (Node d cs))"
      using loop_elem [OF False, of E ns None] by (simp add: sub)
    also have "\<dots> = Some (Node d (cs @ map (subnode_of E) (filter (\<lambda>n. xml_name n \<noteq> ''text'') ns)))"
      by (rule loop_Some)
    finally show ?thesis
      using False by (simp add: sub)
  qed
qed


lemma subnode_of_array:
  "subnode_of E (XmlNode t ''array'' c cs)
     = Node ((plist_new_plist_data E)\<lparr>type := PLIST_ARRAY\<rparr>)
         (map (subnode_of E) (filter (\<lambda>n. xml_name n \<noteq> ''text'') cs))"
  by (simp add: subnode_of_def xml_to_node_loop.simps(2) loop_Some)

lemma subnode_of_dict:
  "subnode_of E (XmlNode t ''dict'' c cs)
     = Node ((plist_new_plist_data E)\<lparr>type := PLIST_DICT\<rparr>)
         (map (subnode_of E) (filter (\<lambda>n. xml_name n \<noteq> ''text'') cs))"
  by (simp add: subnode_of_def xml_to_node_loop.simps(2) loop_Some)

lemma subnode_of_key:
  "subnode_of E (XmlNode t ''key'' c cs)
     = Node ((plist_new_plist_data E)
               \<lparr>strval := Some (strdup (xmlNodeGetContent (XmlNode t ''key'' c cs))),
                type := PLIST_KEY,
                length' := strlen (strdup (xmlNodeGetContent (XmlNode t ''key'' c cs)) @ [NUL])\<rparr>) []"
  by (simp add: subnode_of_def xml_to_node_loop.simps(2) Let_def)

lemma subnode_of_string:
  "subnode_of E (XmlNode t ''string'' c cs)
     = (let s = xmlNodeGetContent (XmlNode t ''string'' c cs);
            enc = xmlDetectCharEncoding s (strlen (s @ [NUL]))
        in if enc = XML_CHAR_ENCODING_UTF8 \<or> enc = XML_CHAR_ENCODING_ASCII
              \<or> enc = XML_CHAR_ENCODING_NONE
           then Node ((plist_new_plist_data E)
                        \<lparr>strval := Some (strdup s), type := PLIST_STRING,
                         length' := strlen (strdup s @ [NUL])\<rparr>) []
           else Node (plist_new_plist_data E) [])"
  by (simp add: subnode_of_def xml_to_node_loop.simps(2) Let_def)

lemma subnode_of_integer:
  "subnode_of E (XmlNode t ''integer'' c cs)
     = Node ((plist_new_plist_data E)
               \<lparr>intval := g_ascii_strtoull (xmlNodeGetContent (XmlNode t ''integer'' c cs)) 0,
                type := PLIST_UINT, length' := 8\<rparr>) []"
  by (simp add: subnode_of_def xml_to_node_loop.simps(2) Let_def)

lemma subnode_of_true:
  "subnode_of E (XmlNode t ''true'' c cs)
     = Node ((plist_new_plist_data E)\<lparr>boolval := True, type := PLIST_BOOLEAN, length' := 1\<rparr>) []"
  by (simp add: subnode_of_def xml_to_node_loop.simps(2) Let_def)

lemma subnode_of_false:
  "subnode_of E (XmlNode t ''false'' c cs)
     = Node ((plist_new_plist_data E)\<lparr>boolval := False, type := PLIST_BOOLEAN, length' := 1\<rparr>) []"
  by (simp add: subnode_of_def xml_to_node_loop.simps(2) Let_def)


text \<open>
  C9. The node decoded from an \<open>array\<close> or \<open>dict\<close> element is a container of that kind
  whose children are the nodes decoded from the element's children that are not text
  nodes, one for each and in document order; a \<open>key\<close> element decodes to a Key node.
  So a dict whose children alternate \<open>key\<close> and value elements decodes to children in
  the same alternating order.
\<close>

theorem C9_container_children_in_order:
  "subnode_of E (XmlNode t ''array'' c cs)
     = Node ((plist_new_plist_data E)\<lparr>type := PLIST_ARRAY\<rparr>)
         (map (subnode_of E) (filter (\<lambda>n. xml_name n \<noteq> ''text'') cs))
   \<and> subnode_of E (XmlNode t ''dict'' c cs)
     = Node ((plist_new_plist_data E)\<lparr>type := PLIST_DICT\<rparr>)
         (map (subnode_of E) (filter (\<lambda>n. xml_name n \<noteq> ''text'') cs))
   \<and> type (plist_get_data (subnode_of E (XmlNode t' ''key'' c' cs'))) = PLIST_KEY"
  by (simp add: subnode_of_array subnode_of_dict subnode_of_key)

theorem C9_container_children_in_order_witness:
  "subnode_of ext0
     (xmlNewNode ''dict''
        [xmlNewText [NL], xmlNewNode ''key'' [xmlNewText ''a''], xmlNewNode ''true'' [],
         xmlNewText [NL], xmlNewNode ''key'' [xmlNewText ''b''], xmlNewNode ''false'' []])
   = Node (calloc_data\<lparr>type := PLIST_DICT\<rparr>)
       [Node (calloc_data\<lparr>strval := Some ''a'', type := PLIST_KEY, length' := 1\<rparr>) [],
        Node (calloc_data\<lparr>boolval := True, type := PLIST_BOOLEAN, length' := 1\<rparr>) [],
        Node (calloc_data\<lparr>strval := Some ''b'', type := PLIST_KEY, length' := 1\<rparr>) [],
        Node (calloc_data\<lparr>boolval := False, type := PLIST_BOOLEAN, length' := 1\<rparr>) []]"
  using C9_container_children_in_order
          [of ext0 XML_ELEMENT_NODE "[]" "[xmlNewText [NL], xmlNewNode ''key'' [xmlNewText ''a''], xmlNewNode ''true'' [],
         xmlNewText [NL], xmlNewNode ''key'' [xmlNewText ''b''], xmlNewNode ''false'' []]"]
  by (simp add: xmlNewNode_def xmlNewText_def subnode_of_key subnode_of_true subnode_of_false
        ext0_def xmlNodeGetContent_def strdup_def c_str_def strlen_def NUL_def)

text \<open>
  C10. When the out-parameter holds a node on entry, every element decoded at this level
  is appended to that node's children, in order. When it is null, the first decoded
  element becomes the root and every later sibling is appended to the children of that
  first element, after the children it has of its own.
\<close>

theorem C10_out_parameter:
  "xml_to_node E (Some x) (Some (Node d cs))
     = Some (Node d (cs @ map (subnode_of E) (filter (\<lambda>n. xml_name n \<noteq> ''text'') (xml_children x))))
   \<and> xml_to_node E (Some x) None
     = (case filter (\<lambda>n. xml_name n \<noteq> ''text'') (xml_children x) of
          [] \<Rightarrow> None
        | e # es \<Rightarrow>
            Some (Node (plist_get_data (subnode_of E e))
                    (g_node_children (subnode_of E e) @ map (subnode_of E) es)))"
  by (simp add: xml_to_node_def loop_Some loop_None)

theorem C10_out_parameter_witness:
  "xml_to_node ext0
     (Some (xmlNewNode ''plist''
              [xmlNewText [NL], xmlNewNode ''array'' [xmlNewNode ''true'' []], xmlNewNode ''false'' []]))
     None
   = Some (Node (calloc_data\<lparr>type := PLIST_ARRAY\<rparr>)
             [Node (calloc_data\<lparr>boolval := True, type := PLIST_BOOLEAN, length' := 1\<rparr>) [],
              Node (calloc_data\<lparr>boolval := False, type := PLIST_BOOLEAN, length' := 1\<rparr>) []])
   \<and> xml_to_node ext0
       (Some (xmlNewNode ''plist'' [xmlNewNode ''true'' [], xmlNewNode ''false'' []]))
       (Some (Node (calloc_data\<lparr>type := PLIST_DICT\<rparr>) []))
     = Some (Node (calloc_data\<lparr>type := PLIST_DICT\<rparr>)
               [Node (calloc_data\<lparr>boolval := True, type := PLIST_BOOLEAN, length' := 1\<rparr>) [],
                Node (calloc_data\<lparr>boolval := False, type := PLIST_BOOLEAN, length' := 1\<rparr>) []])"
  using C10_out_parameter
          [of ext0 "xmlNewNode ''plist''
              [xmlNewText [NL], xmlNewNode ''array'' [xmlNewNode ''true'' []], xmlNewNode ''false'' []]"
              "calloc_data\<lparr>type := PLIST_DICT\<rparr>" "[]"]
        C10_out_parameter
          [of ext0 "xmlNewNode ''plist'' [xmlNewNode ''true'' [], xmlNewNode ''false'' []]"
              "calloc_data\<lparr>type := PLIST_DICT\<rparr>" "[]"]
  by (simp add: xmlNewNode_def xmlNewText_def subnode_of_true subnode_of_false subnode_of_array
        ext0_def)




section \<open>Strings, keys and the detected encoding\<close>

text \<open>
  The encoding test of the \<open>string\<close> branch rejects only content that starts with one
  of the byte-order marks FE FF and FF FE or with the EBCDIC pattern 4C 6F A7 94: the
  other patterns of \<open>xmlDetectCharEncoding\<close> contain a zero byte, which the content of
  a C string does not. None of the three is the start of a UTF-8 text.
\<close>

lemma of_char_zero: "of_char c = (0::nat) \<Longrightarrow> c = NUL"
  by (cases c) (simp add: NUL_def)

lemma detect_rejected_prefix:
  assumes nul: "NUL \<notin> set s"
    and rej: "xmlDetectCharEncoding s (length s) \<noteq> XML_CHAR_ENCODING_UTF8"
             "xmlDetectCharEncoding s (length s) \<noteq> XML_CHAR_ENCODING_ASCII"
             "xmlDetectCharEncoding s (length s) \<noteq> XML_CHAR_ENCODING_NONE"
  shows "take 2 (map of_char s) = [0xFE, 0xFF :: nat]
         \<or> take 2 (map of_char s) = [0xFF, 0xFE :: nat]
         \<or> take 4 (map of_char s) = [0x4C, 0x6F, 0xA7, 0x94 :: nat]"
proof -
  have nz: "(0::nat) \<notin> set (map of_char s)"
  proof
    assume "(0::nat) \<in> set (map of_char s)"
    then obtain c where "c \<in> set s" and "of_char c = (0::nat)"
      by auto
    then show False
      using nul of_char_zero [of c] by simp
  qed
  have z: "\<And>n xs. take n (map of_char s) = xs \<Longrightarrow> (0::nat) \<notin> set xs"
    using nz by (auto dest: in_set_takeD)
  have p1: "take 4 (map of_char s) \<noteq> [0x00, 0x00, 0x00, 0x3C :: nat]"
    and p2: "take 4 (map of_char s) \<noteq> [0x3C, 0x00, 0x00, 0x00 :: nat]"
    and p3: "take 4 (map of_char s) \<noteq> [0x00, 0x00, 0x3C, 0x00 :: nat]"
    and p4: "take 4 (map of_char s) \<noteq> [0x00, 0x3C, 0x00, 0x00 :: nat]"
    and p5: "take 4 (map of_char s) \<noteq> [0x3C, 0x00, 0x3F, 0x00 :: nat]"
    and p6: "take 4 (map of_char s) \<noteq> [0x00, 0x3C, 0x00, 0x3F :: nat]"
    using z by fastforce+
  show ?thesis
    using rej p1 p2 p3 p4 p5 p6
    by (simp add: xmlDetectCharEncoding_def Let_def take_map split: if_splits)
qed

section \<open>The guard of the encoding entry point\<close>

text \<open>
  C5. When the root is null, or the output pointer is null, or it already points to a
  buffer, \<open>plist_to_xml\<close> returns without an error and leaves both out-parameters as
  they were.
\<close>

theorem C5_encode_guard:
  "plist_to_xml E None plist_xml len = Inr (plist_xml, len)
   \<and> plist_to_xml E plist None len = Inr (None, len)
   \<and> plist_to_xml E plist (Some (Some buf)) len = Inr (Some (Some buf), len)"
  by (cases plist) (simp_all add: plist_to_xml_def)

theorem C5_encode_guard_witness:
  "plist_to_xml ext0 None (Some None) (Some 7) = Inr (Some None, Some 7)
   \<and> plist_to_xml ext0 (Some (Node calloc_data [])) None (Some 7) = Inr (None, Some 7)
   \<and> plist_to_xml ext0 (Some (Node calloc_data [])) (Some (Some ''old'')) None
       = Inr (Some (Some ''old''), None)"
  using C5_encode_guard [of ext0 "Some None" "Some 7" "Some (Node calloc_data [])" "''old''"]
        C5_encode_guard [of ext0 "Some None" "None" "Some (Node calloc_data [])" "''old''"]
  by simp

section \<open>Integers\<close>

lemma foldl_value_mono:
  "0 < base \<Longrightarrow> a \<le> foldl (\<lambda>a c. a * base + digit_or_zero c) a ds"
proof (induction ds arbitrary: a)
  case Nil
  show ?case by simp
next
  case (Cons c ds)
  have "a \<le> a * base"
    using Cons.prems by (cases base) simp_all
  then have "a \<le> a * base + digit_or_zero c"
    by (rule trans_le_add1)
  also have "\<dots> \<le> foldl (\<lambda>a c. a * base + digit_or_zero c) (a * base + digit_or_zero c) ds"
    using Cons.prems by (rule Cons.IH)
  finally show ?case by simp
qed

lemma no_overflow:
  assumes "a * base + v \<le> G_MAXUINT64" and "0 < base"
  shows "\<not> (G_MAXUINT64 div base < a \<or> (a = G_MAXUINT64 div base \<and> G_MAXUINT64 mod base < v))"
proof
  assume "G_MAXUINT64 div base < a \<or> (a = G_MAXUINT64 div base \<and> G_MAXUINT64 mod base < v)"
  then show False
  proof
    assume "G_MAXUINT64 div base < a"
    then have "(G_MAXUINT64 div base + 1) * base \<le> a * base"
      by (intro mult_le_mono1) simp
    then have "G_MAXUINT64 div base * base + base \<le> a * base"
      by (simp add: algebra_simps)
    moreover have "G_MAXUINT64 mod base < base"
      using assms(2) by simp
    moreover have "G_MAXUINT64 div base * base + G_MAXUINT64 mod base = G_MAXUINT64"
      by (rule div_mult_mod_eq)
    ultimately show False
      using assms(1) by linarith
  next
    assume h: "a = G_MAXUINT64 div base \<and> G_MAXUINT64 mod base < v"
    have "G_MAXUINT64 div base * base + G_MAXUINT64 mod base = G_MAXUINT64"
      by (rule div_mult_mod_eq)
    moreover have "a * base = G_MAXUINT64 div base * base"
      using h by simp
    ultimately show False
      using assms(1) h by linarith
  qed
qed

lemma parse_digits_stop:
  "rest = [] \<or> \<not> is_digit_of base (hd rest) \<Longrightarrow> parse_digits base rest st = st"
  by (cases rest; cases st) (auto simp: is_digit_of_def split: option.splits)

lemma parse_digits_run:
  assumes "\<forall>c\<in>set ds. is_digit_of base c"
    and "foldl (\<lambda>a c. a * base + digit_or_zero c) a ds \<le> G_MAXUINT64"
    and "0 < base"
  shows "parse_digits base (ds @ rest) (a, False, any)
     = parse_digits base rest (foldl (\<lambda>a c. a * base + digit_or_zero c) a ds, False, any \<or> ds \<noteq> [])"
  using assms(1,2)
proof (induction ds arbitrary: a any)
  case Nil
  show ?case by simp
next
  case (Cons c ds)
  obtain v where v: "digit_value c = Some v" and vb: "v < base"
    using Cons.prems(1) by (auto simp: is_digit_of_def split: option.splits)
  have dz: "digit_or_zero c = v"
    using v by (simp add: digit_or_zero_def)
  have le: "foldl (\<lambda>a c. a * base + digit_or_zero c) (a * base + v) ds \<le> G_MAXUINT64"
    using Cons.prems(2) dz by simp
  have "a * base + v \<le> foldl (\<lambda>a c. a * base + digit_or_zero c) (a * base + v) ds"
    using assms(3) by (rule foldl_value_mono)
  then have "a * base + v \<le> G_MAXUINT64"
    using le by simp
  then have no: "\<not> (G_MAXUINT64 div base < a \<or> (a = G_MAXUINT64 div base \<and> G_MAXUINT64 mod base < v))"
    using assms(3) by (rule no_overflow)
  have cond: "(G_MAXUINT64 div base < a \<or> (a = G_MAXUINT64 div base \<and> G_MAXUINT64 mod base < v)) = False"
    using no by simp
  have nb: "(base \<le> v) = False"
    using vb by simp
  have "parse_digits base ((c # ds) @ rest) (a, False, any)
      = parse_digits base (ds @ rest) (a * base + v, False, True)"
    by (simp only: append_Cons parse_digits.simps v option.case cond nb if_False)
  also have "\<dots> = parse_digits base rest
        (foldl (\<lambda>a c. a * base + digit_or_zero c) (a * base + v) ds, False, True \<or> ds \<noteq> [])"
    using Cons.prems(1) le by (intro Cons.IH) simp_all
  finally show ?case
    by (simp add: dz)
qed

lemma parse_digits_number:
  assumes "\<forall>c\<in>set ds. is_digit_of base c" and "ds \<noteq> []"
    and "digits_value base ds \<le> G_MAXUINT64" and "0 < base"
    and "rest = [] \<or> \<not> is_digit_of base (hd rest)"
  shows "parse_digits base (ds @ rest) (0, False, False) = (digits_value base ds, False, True)"
proof -
  have "parse_digits base (ds @ rest) (0, False, False)
      = parse_digits base rest (digits_value base ds, False, False \<or> ds \<noteq> [])"
    unfolding digits_value_def
    using assms(1) assms(3) [unfolded digits_value_def] assms(4) by (rule parse_digits_run)
  also have "\<dots> = (digits_value base ds, False, False \<or> ds \<noteq> [])"
    using assms(5) by (rule parse_digits_stop)
  finally show ?thesis
    using assms(2) by simp
qed

lemma digit_not_space_sign:
  assumes "is_digit_of base c"
  shows "\<not> ISSPACE c" and "c \<noteq> CHR ''-''" and "c \<noteq> CHR ''+''"
  using assms
  by (auto simp: is_digit_of_def digit_value_def ISSPACE_def NL_def TAB_def Let_def
      split: option.splits if_splits)

lemma digit_value_zero: "digit_value (CHR ''0'') = Some 0"
  by (simp add: digit_value_def)


lemma is_digit_zero: "0 < base \<Longrightarrow> is_digit_of base (CHR ''0'')"
  by (simp add: is_digit_of_def digit_value_zero)

lemma parse_decimal:
  assumes "\<forall>ch\<in>set ds. is_digit_of 10 ch" and "ds \<noteq> []" and "hd ds \<noteq> CHR ''0''"
    and "digits_value 10 ds \<le> G_MAXUINT64"
    and "rest = [] \<or> \<not> is_digit_of 10 (hd rest)"
  shows "g_parse_long_long (ds @ rest) 0 = (digits_value 10 ds, False)"
proof -
  obtain c0 s0 where ds: "ds = c0 # s0"
    using assms(2) by (cases ds) auto
  have c0: "is_digit_of 10 c0" and z: "c0 \<noteq> CHR ''0''"
    using assms(1,3) ds by simp_all
  have sp: "dropWhile ISSPACE (ds @ rest) = c0 # (s0 @ rest)"
    using digit_not_space_sign(1) [OF c0] ds by simp
  have sg: "c0 \<noteq> CHR ''-''" "c0 \<noteq> CHR ''+''"
    using digit_not_space_sign [OF c0] by simp_all
  have pd: "parse_digits 10 (c0 # (s0 @ rest)) (0, False, False) = (digits_value 10 ds, False, True)"
    using parse_digits_number [OF assms(1,2,4) _ assms(5)] ds by simp
  show ?thesis
    unfolding g_parse_long_long_def sp
    using sg z pd by (cases "s0 @ rest") (simp_all add: Let_def)
qed

lemma parse_hex:
  assumes "\<forall>ch\<in>set hs. is_digit_of 16 ch" and "hs \<noteq> []"
    and "digits_value 16 hs \<le> G_MAXUINT64"
    and "rest = [] \<or> \<not> is_digit_of 16 (hd rest)"
  shows "g_parse_long_long (''0x'' @ hs @ rest) 0 = (digits_value 16 hs, False)"
proof -
  have sp: "dropWhile ISSPACE (''0x'' @ hs @ rest) = CHR ''0'' # CHR ''x'' # (hs @ rest)"
    by (simp add: ISSPACE_def NL_def TAB_def)
  have pd: "parse_digits 16 (hs @ rest) (0, False, False) = (digits_value 16 hs, False, True)"
    using parse_digits_number [OF assms(1,2,3) _ assms(4)] by simp
  show ?thesis
    unfolding g_parse_long_long_def sp
    using pd by (simp add: Let_def)
qed

lemma parse_no_digits:
  assumes "number_start s = [] \<or> \<not> is_digit_of 10 (hd (number_start s))"
  shows "fst (g_parse_long_long s 0) = 0"
proof (cases "dropWhile ISSPACE s")
  case Nil
  show ?thesis
    unfolding g_parse_long_long_def Nil by simp
next
  case (Cons c0 s0)
  let ?s1 = "if c0 = CHR ''-'' \<or> c0 = CHR ''+'' then s0 else c0 # s0"
  have ns: "number_start s = ?s1"
    using Cons by (simp add: number_start_def)
  have stop: "parse_digits 10 ?s1 (0, False, False) = (0, False, False)"
    using assms unfolding ns by (intro parse_digits_stop) simp
  have nz: "?s1 \<noteq> [] \<Longrightarrow> hd ?s1 \<noteq> CHR ''0''"
    using assms is_digit_zero [of 10] unfolding ns by auto
  show ?thesis
  proof (cases ?s1)
    case Nil
    then show ?thesis
      unfolding g_parse_long_long_def Cons using stop by (simp add: Let_def)
  next
    case (Cons z zs)
    then have "z \<noteq> CHR ''0''" using nz by simp
    then show ?thesis
      unfolding g_parse_long_long_def \<open>dropWhile ISSPACE s = c0 # s0\<close>
      using stop Cons by (cases zs) (simp_all add: Let_def)
  qed
qed

lemma strtoull_no_digits:
  assumes "number_start s = [] \<or> \<not> is_digit_of 10 (hd (number_start s))"
  shows "g_ascii_strtoull s 0 = 0"
  using parse_no_digits [OF assms]
  by (cases "g_parse_long_long s 0") (simp add: g_ascii_strtoull_def)

text \<open>
  C8, as the code has it. An \<open>integer\<close> element always decodes to an UnsignedInteger
  node, without an error; its value is what \<open>g_ascii_strtoull\<close> reads from the
  content in base 0. A run of decimal digits that does not start with 0, and a run of
  hexadecimal digits after \<open>0x\<close>, give their value when it fits 64 bits, and what
  follows the run is ignored. The value is 0 when the content, after white space and a
  sign, does not start with a digit.
\<close>

theorem C8_integer_parsing:
  "subnode_of E (XmlNode t ''integer'' c cs)
     = Node ((plist_new_plist_data E)
               \<lparr>intval := g_ascii_strtoull (xmlNodeGetContent (XmlNode t ''integer'' c cs)) 0,
                type := PLIST_UINT, length' := 8\<rparr>) []
   \<and> ((\<forall>ch\<in>set ds. is_digit_of 10 ch) \<and> ds \<noteq> [] \<and> hd ds \<noteq> CHR ''0''
        \<and> digits_value 10 ds \<le> G_MAXUINT64 \<and> (rest = [] \<or> \<not> is_digit_of 10 (hd rest))
      \<longrightarrow> g_ascii_strtoull (ds @ rest) 0 = word_of_nat (digits_value 10 ds))
   \<and> ((\<forall>ch\<in>set hs. is_digit_of 16 ch) \<and> hs \<noteq> []
        \<and> digits_value 16 hs \<le> G_MAXUINT64 \<and> (rest' = [] \<or> \<not> is_digit_of 16 (hd rest'))
      \<longrightarrow> g_ascii_strtoull (''0x'' @ hs @ rest') 0 = word_of_nat (digits_value 16 hs))
   \<and> (number_start s = [] \<or> \<not> is_digit_of 10 (hd (number_start s))
      \<longrightarrow> g_ascii_strtoull s 0 = 0)"
proof (intro conjI impI)
  show "subnode_of E (XmlNode t ''integer'' c cs)
     = Node ((plist_new_plist_data E)
               \<lparr>intval := g_ascii_strtoull (xmlNodeGetContent (XmlNode t ''integer'' c cs)) 0,
                type := PLIST_UINT, length' := 8\<rparr>) []"
    by (rule subnode_of_integer)
next
  assume "(\<forall>ch\<in>set ds. is_digit_of 10 ch) \<and> ds \<noteq> [] \<and> hd ds \<noteq> CHR ''0''
        \<and> digits_value 10 ds \<le> G_MAXUINT64 \<and> (rest = [] \<or> \<not> is_digit_of 10 (hd rest))"
  then have "g_parse_long_long (ds @ rest) 0 = (digits_value 10 ds, False)"
    by (intro parse_decimal) simp_all
  then show "g_ascii_strtoull (ds @ rest) 0 = word_of_nat (digits_value 10 ds)"
    by (simp add: g_ascii_strtoull_def)
next
  assume "(\<forall>ch\<in>set hs. is_digit_of 16 ch) \<and> hs \<noteq> []
        \<and> digits_value 16 hs \<le> G_MAXUINT64 \<and> (rest' = [] \<or> \<not> is_digit_of 16 (hd rest'))"
  then have "g_parse_long_long (''0x'' @ hs @ rest') 0 = (digits_value 16 hs, False)"
    by (intro parse_hex) simp_all
  then show "g_ascii_strtoull (''0x'' @ hs @ rest') 0 = word_of_nat (digits_value 16 hs)"
    by (simp add: g_ascii_strtoull_def)
next
  assume "number_start s = [] \<or> \<not> is_digit_of 10 (hd (number_start s))"
  then show "g_ascii_strtoull s 0 = 0"
    by (rule strtoull_no_digits)
qed

theorem C8_integer_parsing_witness:
  "subnode_of ext0 (xmlNewNode ''integer'' [xmlNewText ''42''])
     = Node (calloc_data\<lparr>intval := 42, type := PLIST_UINT, length' := 8\<rparr>) []
   \<and> g_ascii_strtoull ''42'' 0 = 42
   \<and> g_ascii_strtoull ''0x1F'' 0 = 31
   \<and> g_ascii_strtoull ''abc'' 0 = 0"
  using C8_integer_parsing [of ext0 XML_ELEMENT_NODE "[]" "[xmlNewText ''42'']" "''42''" "[]" "''1F''" "[]" "''abc''"]
  by (simp add: xmlNewNode_def xmlNewText_def xmlNodeGetContent_def ext0_def
        is_digit_of_def digit_value_def digits_value_def digit_or_zero_def number_start_def
        ISSPACE_def NL_def TAB_def G_MAXUINT64_def Let_def)

text \<open>
  C8 as stated fails at the malformed content \<open>12abc\<close>: the value is 12, not 0.
\<close>

theorem C8_integer_parsing_counterexample:
  "subnode_of ext0 (xmlNewNode ''integer'' [xmlNewText ''12abc''])
     = Node (calloc_data\<lparr>intval := 12, type := PLIST_UINT, length' := 8\<rparr>) []"
proof -
  have "(\<forall>ch\<in>set ''12''. is_digit_of 10 ch) \<and> ''12'' \<noteq> [] \<and> hd ''12'' \<noteq> CHR ''0''
        \<and> digits_value 10 ''12'' \<le> G_MAXUINT64 \<and> (''abc'' = [] \<or> \<not> is_digit_of 10 (hd ''abc''))"
    by (simp add: is_digit_of_def digit_value_def digits_value_def digit_or_zero_def
          G_MAXUINT64_def Let_def)
  then have "g_parse_long_long (''12'' @ ''abc'') 0 = (digits_value 10 ''12'', False)"
    by (intro parse_decimal) simp_all
  then have "g_ascii_strtoull ''12abc'' 0 = 12"
    by (simp add: g_ascii_strtoull_def digits_value_def digit_or_zero_def digit_value_def)
  then show ?thesis
    by (simp add: subnode_of_integer xmlNewNode_def xmlNewText_def xmlNodeGetContent_def ext0_def)
qed

section \<open>Data nodes and the formatter\<close>

lemma base64_groups_empty: "base64_groups xs = [] \<longleftrightarrow> xs = []"
  by (induction xs rule: base64_groups.induct) simp_all

lemma g_base64_encode_nonempty:
  "len \<noteq> 0 \<Longrightarrow> len \<le> length data \<Longrightarrow> g_base64_encode data len \<noteq> []"
  by (auto simp: g_base64_encode_def base64_groups_empty)

lemma node_to_xml_val_data_empty:
  "type d = PLIST_DATA \<Longrightarrow> length' d = 0 \<Longrightarrow>
   node_to_xml_val E d dep = Inr (Some ''data'', None, False)"
  by (simp add: node_to_xml_val_def)

text \<open>
  C7. For a Data node of length zero the encoder computes no text and adds a \<open>data\<close>
  element without any content. The formatter is applied only under the test that the
  length is not zero, to the base64 text of the bytes, and that text is not empty.
\<close>

theorem C7_data_zero_length:
  assumes "type d = PLIST_DATA"
  shows "(length' d = 0 \<longrightarrow>
            node_to_xml_val E d dep = Inr (Some ''data'', None, False)
            \<and> node_to_xml E (Node d kids) xstruct
                = Inr (xstruct\<lparr>xml := xmlNodeAddContent
                                        (xmlAddChild (add_tabs (depth xstruct) (xml xstruct))
                                           (xmlNewNode ''data'' []))
                                        [NL]\<rparr>))
         \<and> (length' d \<noteq> 0 \<and> length (buff d) < length' d \<longrightarrow>
              node_to_xml_val E d dep = Inl OutOfBounds)
         \<and> (length' d \<noteq> 0 \<and> length' d \<le> length (buff d) \<longrightarrow>
              g_base64_encode (buff d) (length' d) \<noteq> []
              \<and> node_to_xml_val E d dep
                  = (case format_string (g_base64_encode (buff d) (length' d)) 60 (sint dep) of
                       Inl e \<Rightarrow> Inl e
                     | Inr val \<Rightarrow> Inr (Some ''data'', Some val, False)))"
proof (intro conjI impI)
  assume z: "length' d = 0"
  show "node_to_xml_val E d dep = Inr (Some ''data'', None, False)"
    using assms z by (rule node_to_xml_val_data_empty)
  show "node_to_xml E (Node d kids) xstruct
      = Inr (xstruct\<lparr>xml := xmlNodeAddContent
                              (xmlAddChild (add_tabs (depth xstruct) (xml xstruct))
                                 (xmlNewNode ''data'' []))
                              [NL]\<rparr>)"
    using assms by (simp add: node_to_xml_val_data_empty [OF assms z] xmlNewChild_def Let_def)
next
  assume "length' d \<noteq> 0 \<and> length (buff d) < length' d"
  then show "node_to_xml_val E d dep = Inl OutOfBounds"
    using assms by (simp add: node_to_xml_val_def)
next
  assume "length' d \<noteq> 0 \<and> length' d \<le> length (buff d)"
  then show "g_base64_encode (buff d) (length' d) \<noteq> []"
    by (simp add: g_base64_encode_nonempty)
next
  assume "length' d \<noteq> 0 \<and> length' d \<le> length (buff d)"
  then show "node_to_xml_val E d dep
      = (case format_string (g_base64_encode (buff d) (length' d)) 60 (sint dep) of
           Inl e \<Rightarrow> Inl e
         | Inr val \<Rightarrow> Inr (Some ''data'', Some val, False))"
    using assms by (simp add: node_to_xml_val_def Let_def)
qed

theorem C7_data_zero_length_witness:
  "type (calloc_data\<lparr>type := PLIST_DATA\<rparr>) = PLIST_DATA
   \<and> length' (calloc_data\<lparr>type := PLIST_DATA\<rparr>) = 0
   \<and> node_to_xml ext0 (Node (calloc_data\<lparr>type := PLIST_DATA\<rparr>) []) \<lparr>xml = new_xml_plist, depth = 0\<rparr>
       = Inr \<lparr>xml = xmlNewNode ''plist'' [xmlNewText [NL], xmlNewNode ''data'' [], xmlNewText [NL]],
              depth = 0\<rparr>
   \<and> g_base64_encode [1, 2, 3, 4] 4 \<noteq> []
   \<and> node_to_xml_val ext0 (calloc_data\<lparr>type := PLIST_DATA, buff := [1, 2, 3, 4], length' := 5\<rparr>) 0
       = Inl OutOfBounds"
proof -
  let ?x = "\<lparr>xml = new_xml_plist, depth = 0\<rparr>"
  let ?d0 = "calloc_data\<lparr>type := PLIST_DATA\<rparr>"
  let ?d4 = "calloc_data\<lparr>type := PLIST_DATA, buff := [1, 2, 3, 4], length' := 4\<rparr>"
  let ?d5 = "calloc_data\<lparr>type := PLIST_DATA, buff := [1, 2, 3, 4], length' := 5\<rparr>"
  have t0: "type ?d0 = PLIST_DATA" and z0: "length' ?d0 = 0"
    by (simp_all add: calloc_data_def)
  have t4: "type ?d4 = PLIST_DATA" and z4: "length' ?d4 \<noteq> 0 \<and> length' ?d4 \<le> length (buff ?d4)"
    by simp_all
  have t5: "type ?d5 = PLIST_DATA" and z5: "length' ?d5 \<noteq> 0 \<and> length (buff ?d5) < length' ?d5"
    by simp_all
  have "node_to_xml ext0 (Node ?d0 []) ?x
      = Inr (?x\<lparr>xml := xmlNodeAddContent
                          (xmlAddChild (add_tabs (depth ?x) (xml ?x)) (xmlNewNode ''data'' []))
                          [NL]\<rparr>)"
    using C7_data_zero_length [OF t0, of ext0 0 "[]" ?x] z0 by blast
  then have a: "node_to_xml ext0 (Node ?d0 []) ?x
      = Inr \<lparr>xml = xmlNewNode ''plist'' [xmlNewText [NL], xmlNewNode ''data'' [], xmlNewText [NL]],
             depth = 0\<rparr>"
    by (simp add: new_xml_plist_def xmlNewNode_def xmlNewText_def add_tabs_def)
  have "g_base64_encode (buff ?d4) (length' ?d4) \<noteq> []"
    using C7_data_zero_length [OF t4, of ext0 0 "[]" ?x] z4 by blast
  then have b: "g_base64_encode [1, 2, 3, 4] 4 \<noteq> []"
    by simp
  have c: "node_to_xml_val ext0 ?d5 0 = Inl OutOfBounds"
    using C7_data_zero_length [OF t5, of ext0 0 "[]" ?x] z5 by blast
  show ?thesis
    using t0 z0 a b c by blast
qed

section \<open>Strings and keys with entity references\<close>

text \<open>
  C3, at the Key \<open>&lt;\<close>. The encoder hands the text of a Key to \<open>xmlNewChild\<close>, which
  reads \<open>&lt;\<close> as an entity reference: the \<open>key\<close> element holds the text \<open><\<close>, and
  decoding it gives the Key \<open><\<close>. The same text in a String goes through
  \<open>xmlNewTextChild\<close> and is kept as it is.
\<close>

theorem C3_key_entity_not_escaped:
  "node_to_xml E (Node (d\<lparr>type := PLIST_KEY, strval := Some ''&lt;''\<rparr>) [])
       \<lparr>xml = new_xml_plist, depth = 0\<rparr>
     = Inr \<lparr>xml = xmlNewNode ''plist''
                    [xmlNewText [NL], xmlNewNode ''key'' [xmlNewText ''<''], xmlNewText [NL]],
            depth = 0\<rparr>
   \<and> subnode_of E (xmlNewNode ''key'' [xmlNewText ''<''])
     = Node ((plist_new_plist_data E)\<lparr>strval := Some ''<'', type := PLIST_KEY, length' := 1\<rparr>) []
   \<and> node_to_xml E (Node (d\<lparr>type := PLIST_STRING, strval := Some ''&lt;''\<rparr>) [])
       \<lparr>xml = new_xml_plist, depth = 0\<rparr>
     = Inr \<lparr>xml = xmlNewNode ''plist''
                    [xmlNewText [NL], xmlNewNode ''string'' [xmlNewText ''&lt;''], xmlNewText [NL]],
            depth = 0\<rparr>"
  by (simp add: node_to_xml_val_def g_strdup_def strdup_def c_str_def NUL_def xmlNewChild_def
        xmlNewTextChild_def xmlStringGetNodeList_def predefined_entity_def new_xml_plist_def
        xmlNewNode_def xmlNewText_def add_tabs_def subnode_of_key xmlNodeGetContent_def
        strlen_def Let_def)

text \<open>
  C1, at a Dict with the Key \<open>&lt;\<close>. Decoding the document that the encoder builds for
  it gives a Dict whose Key is \<open><\<close>: the round trip does not return the tree.
\<close>

theorem C1_round_trip_key_entity:
  "(case node_to_xml ext0
           (Node (calloc_data\<lparr>type := PLIST_DICT\<rparr>)
              [Node (calloc_data\<lparr>strval := Some ''&lt;'', type := PLIST_KEY, length' := 4\<rparr>) [],
               Node (calloc_data\<lparr>boolval := True, type := PLIST_BOOLEAN, length' := 1\<rparr>) []])
           \<lparr>xml = new_xml_plist, depth = 0\<rparr> of
      Inl e \<Rightarrow> None
    | Inr r \<Rightarrow> xml_to_node ext0 (Some (xml r)) None)
   = Some (Node (calloc_data\<lparr>type := PLIST_DICT\<rparr>)
             [Node (calloc_data\<lparr>strval := Some ''<'', type := PLIST_KEY, length' := 1\<rparr>) [],
              Node (calloc_data\<lparr>boolval := True, type := PLIST_BOOLEAN, length' := 1\<rparr>) []])"
  by (simp add: node_to_xml_val_def g_strdup_def strdup_def c_str_def NUL_def xmlNewChild_def
        xmlNewTextChild_def xmlStringGetNodeList_def predefined_entity_def new_xml_plist_def
        xmlNewNode_def xmlNewText_def add_tabs_def xmlNodeGetContent_def
        strlen_def Let_def calloc_data_def ext0_def xml_to_node_def xml_to_node_loop.simps(2)
        TAB_def NL_def)

end
